theory Spec2Isabelle
  imports Complex_Main "HOL-Library.Sublist" "HOL-Library.AList"
begin

section \<open>Image compositing: a model of \<open>composites/image_composites.py\<close>\<close>

text \<open>
  The script builds one composite raster from a stack of input rasters. For every block
  window it reads the window from every input into a buffer \<open>dat\<close> indexed
  (image, band, row, col), evaluates a criterion expression to a per-pixel image index, and
  writes, band by band, the values of the selected image.

  Arrays are nested lists; a numpy array is rectangular, which the theorems state as a
  shape hypothesis. Python exceptions are values of \<open>error\<close>. The raster library is an
  interface (a record of functions), the files are a map from paths to rasters, and what
  the script does to them is recorded as a list of events.
\<close>

subsection \<open>Errors and arrays\<close>

text \<open>
  The exceptions the script can end with: \<open>click.UsageError\<close>, \<open>click.BadParameter\<close>,
  \<open>click.Abort\<close>, Python's \<open>KeyError\<close>, \<open>IndexError\<close>, \<open>ValueError\<close> and \<open>IOError\<close>, and
  the \<open>ExpressionError\<close> of the expression evaluator. \<open>NonFinite\<close> is not an exception:
  it marks a division whose divisor holds a zero, where numpy continues with \<open>inf\<close> or \<open>nan\<close>,
  values that the exact arithmetic used here does not have.
\<close>

datatype error =
  UsageError | BadParameter | Abort | KeyError | IndexError | ValueError | IOError
  | ExpressionError | NonFinite

type_synonym 'a arr2 = "'a list list"
type_synonym 'a arr3 = "'a list list list"
type_synonym 'a arr4 = "'a list list list list"

text \<open>The shape of an array, read off its first elements.\<close>

definition ncols2 :: "'a arr2 \<Rightarrow> nat" where
  "ncols2 a = (case a of [] \<Rightarrow> 0 | row # _ \<Rightarrow> length row)"

definition nrows3 :: "'a arr3 \<Rightarrow> nat" where
  "nrows3 a = (case a of [] \<Rightarrow> 0 | img # _ \<Rightarrow> length img)"

definition ncols3 :: "'a arr3 \<Rightarrow> nat" where
  "ncols3 a = (case a of [] \<Rightarrow> 0 | img # _ \<Rightarrow> ncols2 img)"

text \<open>Rectangular arrays of a given shape.\<close>

definition shape2 :: "'a arr2 \<Rightarrow> nat \<Rightarrow> nat \<Rightarrow> bool" where
  "shape2 a nr nc = (length a = nr \<and> list_all (\<lambda>row. length row = nc) a)"

definition shape3 :: "'a arr3 \<Rightarrow> nat \<Rightarrow> nat \<Rightarrow> nat \<Rightarrow> bool" where
  "shape3 a n nr nc = (length a = n \<and> list_all (\<lambda>img. shape2 img nr nc) a)"

definition shape4 :: "'a arr4 \<Rightarrow> nat \<Rightarrow> nat \<Rightarrow> nat \<Rightarrow> nat \<Rightarrow> bool" where
  "shape4 a n nb nr nc = (length a = n \<and> list_all (\<lambda>img. shape3 img nb nr nc) a)"

text \<open>
  Python and numpy indexing with an integer: a negative index counts from the end, an index
  outside \<open>[-n, n)\<close> raises \<open>IndexError\<close>.
\<close>

definition in_range :: "nat \<Rightarrow> int \<Rightarrow> bool" where
  "in_range n i = (- int n \<le> i \<and> i < int n)"

definition wrap :: "nat \<Rightarrow> int \<Rightarrow> nat" where
  "wrap n i = nat (if i < 0 then i + int n else i)"

subsection \<open>The selection functions (lines 143-147)\<close>

text \<open>
  \<^verbatim>\<open>snuggs.func_map['max'] = lambda a: np.argmax(a, axis=0)\<close>
  \<^verbatim>\<open>snuggs.func_map['min'] = lambda a: np.argmin(a, axis=0)\<close>
  \<^verbatim>\<open>snuggs.func_map['median'] = lambda a: np.argmin(np.abs(a - np.median(a, axis=0)), axis=0)\<close>

  \<open>np.argmax\<close> scans along the axis and keeps the first position of the largest value;
  on an axis of length 0 it raises \<open>ValueError\<close>. Values are taken in a linear order
  (for the median, an ordered field): \<open>nan\<close>, the rounding of floating point and masked
  pixels are not part of this model.
\<close>

fun argmax_from :: "'a::linorder \<Rightarrow> nat \<Rightarrow> nat \<Rightarrow> 'a list \<Rightarrow> nat" where
  "argmax_from best bi i [] = bi"
| "argmax_from best bi i (x # xs) =
     (if best < x then argmax_from x i (Suc i) xs else argmax_from best bi (Suc i) xs)"

fun argmin_from :: "'a::linorder \<Rightarrow> nat \<Rightarrow> nat \<Rightarrow> 'a list \<Rightarrow> nat" where
  "argmin_from best bi i [] = bi"
| "argmin_from best bi i (x # xs) =
     (if x < best then argmin_from x i (Suc i) xs else argmin_from best bi (Suc i) xs)"

text \<open>The values of one pixel along the image axis.\<close>

definition pixel_stack :: "'a arr3 \<Rightarrow> nat \<Rightarrow> nat \<Rightarrow> 'a list" where
  "pixel_stack a r c = map (\<lambda>img. img ! r ! c) a"

definition np_argmax_axis0 :: "'a::linorder arr3 \<Rightarrow> error + nat arr2" where
  "np_argmax_axis0 a =
     (case a of
        [] \<Rightarrow> Inl ValueError
      | img # rest \<Rightarrow>
          Inr (map (\<lambda>r. map (\<lambda>c. argmax_from (img ! r ! c) 0 1 (pixel_stack rest r c))
                           [0..<ncols2 img])
                   [0..<length img]))"

definition np_argmin_axis0 :: "'a::linorder arr3 \<Rightarrow> error + nat arr2" where
  "np_argmin_axis0 a =
     (case a of
        [] \<Rightarrow> Inl ValueError
      | img # rest \<Rightarrow>
          Inr (map (\<lambda>r. map (\<lambda>c. argmin_from (img ! r ! c) 0 1 (pixel_stack rest r c))
                           [0..<ncols2 img])
                   [0..<length img]))"

text \<open>
  \<open>np.median\<close>: the middle element of the sorted values, or the mean of the two middle
  ones when their number is even.
\<close>

definition median_list :: "'a::linordered_field list \<Rightarrow> 'a" where
  "median_list xs =
     (let s = sort xs; n = length xs
      in if odd n then s ! (n div 2) else (s ! (n div 2 - 1) + s ! (n div 2)) / 2)"

definition np_median_axis0 :: "'a::linordered_field arr3 \<Rightarrow> 'a arr2" where
  "np_median_axis0 a =
     map (\<lambda>r. map (\<lambda>c. median_list (pixel_stack a r c)) [0..<ncols3 a]) [0..<nrows3 a]"

text \<open>\<open>a - m\<close> with \<open>m\<close> of shape (row, col) broadcast along the image axis; \<open>np.abs\<close>.\<close>

definition np_sub_axis0 :: "'a::linordered_field arr3 \<Rightarrow> 'a arr2 \<Rightarrow> 'a arr3" where
  "np_sub_axis0 a m = map (\<lambda>img. map2 (map2 (\<lambda>x y. x - y)) img m) a"

definition np_abs :: "'a::linordered_field arr3 \<Rightarrow> 'a arr3" where
  "np_abs a = map (map (map abs)) a"

definition sel_max :: "'a::linorder arr3 \<Rightarrow> error + nat arr2" where
  "sel_max a = np_argmax_axis0 a"

definition sel_min :: "'a::linorder arr3 \<Rightarrow> error + nat arr2" where
  "sel_min a = np_argmin_axis0 a"

definition sel_median :: "'a::linordered_field arr3 \<Rightarrow> error + nat arr2" where
  "sel_median a = np_argmin_axis0 (np_abs (np_sub_axis0 a (np_median_axis0 a)))"

definition func_map :: "string \<Rightarrow> ('a::linordered_field arr3 \<Rightarrow> error + nat arr2) option" where
  "func_map f =
     (if f = ''max'' then Some sel_max
      else if f = ''min'' then Some sel_min
      else if f = ''median'' then Some sel_median
      else None)"

subsection \<open>Gathering the composite (lines 166-170 and 181-188)\<close>

text \<open>
  \<^verbatim>\<open>mi, mj = np.meshgrid(np.arange(block_nrow), np.arange(block_ncol), indexing='ij')\<close>
\<close>

definition meshgrid_ij :: "nat \<Rightarrow> nat \<Rightarrow> int arr2 \<times> int arr2" where
  "meshgrid_ij nr nc =
     (map (\<lambda>r. replicate nc (int r)) [0..<nr], map (\<lambda>r. map int [0..<nc]) [0..<nr])"

text \<open>
  \<open>np.rollaxis(dat, 1, 4)\<close> turns the buffer of shape (image, band, row, col) into shape
  (image, row, col, band).
\<close>

definition rollaxis_1_4 :: "nat \<Rightarrow> nat \<Rightarrow> 'a arr4 \<Rightarrow> 'a arr4" where
  "rollaxis_1_4 nr nc dat =
     map (\<lambda>img. map (\<lambda>r. map (\<lambda>c. map (\<lambda>bnd. bnd ! r ! c) img) [0..<nc]) [0..<nr]) dat"

text \<open>
  Broadcasting of numpy: two axis lengths agree when they are equal or one of them is 1,
  and an axis of length 1 is repeated.
\<close>

definition bcast_len :: "nat \<Rightarrow> nat \<Rightarrow> nat option" where
  "bcast_len m n = (if m = n then Some m else if m = 1 then Some n else if n = 1 then Some m else None)"

definition bcast_dim :: "nat \<Rightarrow> 'a list \<Rightarrow> 'a list" where
  "bcast_dim n xs = (case xs of [x] \<Rightarrow> replicate n x | _ \<Rightarrow> xs)"

definition bcast2 :: "nat \<Rightarrow> nat \<Rightarrow> 'a arr2 \<Rightarrow> 'a arr2" where
  "bcast2 nr nc a = bcast_dim nr (map (bcast_dim nc) a)"

text \<open>
  \<open>rolled[crit_idx, mi, mj]\<close>: the three index arrays are broadcast to one shape (row, col)
  and entry (r, c) of the result is the band vector
  \<open>rolled[crit_idx[r,c], mi[r,c], mj[r,c], :]\<close>. Index arrays that do not broadcast, or an
  index outside the axis, raise \<open>IndexError\<close>.
\<close>

definition fancy_index ::
  "nat \<Rightarrow> nat \<Rightarrow> 'a arr4 \<Rightarrow> int arr2 \<Rightarrow> int arr2 \<Rightarrow> int arr2 \<Rightarrow> error + 'a arr3" where
  "fancy_index nr nc rolled ci mi mj =
     (case (bcast_len (length ci) (length mi), bcast_len (ncols2 ci) (ncols2 mi)) of
        (Some R, Some C) \<Rightarrow>
          (let ci' = bcast2 R C ci; mi' = bcast2 R C mi; mj' = bcast2 R C mj
           in if list_all (list_all (in_range (length rolled))) ci'
                 \<and> list_all (list_all (in_range nr)) mi'
                 \<and> list_all (list_all (in_range nc)) mj'
              then Inr (map (\<lambda>r. map (\<lambda>c. rolled ! wrap (length rolled) (ci' ! r ! c)
                                                    ! wrap nr (mi' ! r ! c)
                                                    ! wrap nc (mj' ! r ! c))
                                       [0..<C])
                            [0..<R])
              else Inl IndexError)
      | _ \<Rightarrow> Inl IndexError)"

definition composite_block :: "nat \<Rightarrow> nat \<Rightarrow> 'a arr4 \<Rightarrow> int arr2 \<Rightarrow> error + 'a arr3" where
  "composite_block nr nc dat crit_idx =
     (case meshgrid_ij nr nc of
        (mi, mj) \<Rightarrow> fancy_index nr nc (rollaxis_1_4 nr nc dat) crit_idx mi mj)"

text \<open>\<open>composite[:, :, i_b]\<close>\<close>

definition band_of :: "'a arr3 \<Rightarrow> nat \<Rightarrow> 'a arr2" where
  "band_of composite i_b = map (map (\<lambda>px. px ! i_b)) composite"

subsection \<open>Choosing the criterion (lines 116-126)\<close>

definition ALGO :: "(string \<times> string) list" where
  "ALGO =
     [(''maxNDVI'', ''(max (/ (- nir red) (+ nir red)))''),
      (''medianNDVI'', ''(median (/ (- nir red) (+ nir red)))''),
      (''ZheZhu'', ''(max (/ nir blue))''),
      (''minBlue'', ''(min blue)''),
      (''maxNIR'', ''(max nir)'')]"

datatype log_record = LogWarning string | LogDebug string | LogInfo string

text \<open>Python's \<open>not x\<close> for an optional string: true for \<open>None\<close> and for the empty string.\<close>

definition py_not :: "string option \<Rightarrow> bool" where
  "py_not x = (x = None \<or> x = Some [])"

text \<open>
  The result is the log written so far and the expression, or the exception. A debug
  record is written only in verbose mode. \<open>_ALGO[algo]\<close> raises \<open>KeyError\<close> for a name
  that is not predefined.
\<close>

definition select_criterion ::
  "bool \<Rightarrow> string option \<Rightarrow> string option \<Rightarrow> log_record list \<times> (error + string)" where
  "select_criterion verbose algo_opt expr_opt =
     (if py_not algo_opt \<and> py_not expr_opt then ([], Inl UsageError)
      else if algo_opt \<noteq> None \<and> expr_opt \<noteq> None then
        (let lg = [LogWarning (''Predefined algorithm and expression both defined. ''
                               @ ''Composite will be generated with predefined algorithm'')]
         in case map_of ALGO (the algo_opt) of
              None \<Rightarrow> (lg, Inl KeyError)
            | Some e \<Rightarrow> (lg @ [LogInfo (''Compositing criteria S-expression: '' @ e)], Inr e))
      else if algo_opt \<noteq> None then
        (let lg = (if verbose then [LogDebug (''Using predefined algorithm: '' @ the algo_opt)]
                   else [])
         in case map_of ALGO (the algo_opt) of
              None \<Rightarrow> (lg, Inl KeyError)
            | Some e \<Rightarrow> (lg @ [LogInfo (''Compositing criteria S-expression: '' @ e)], Inr e))
      else ([LogInfo (''Compositing criteria S-expression: '' @ the expr_opt)],
            Inr (the expr_opt)))"

subsection \<open>The band map (lines 42-48 and 128-141)\<close>

text \<open>
  \<open>_valid_band\<close>, the callback of the six named band options: the value is an integer
  (the option's type), and an integer below 1 is refused.
\<close>

definition valid_band :: "int \<Rightarrow> error + int" where
  "valid_band v = (if 1 \<le> v then Inr v else Inl BadParameter)"

text \<open>
  Python's \<open>int(s)\<close> on a string: surrounding whitespace is dropped, then an optional sign
  and one or more decimal digits; anything else is a \<open>ValueError\<close> (here \<open>None\<close>).
\<close>

definition is_space :: "char \<Rightarrow> bool" where
  "is_space c = (c \<in> set [CHR '' '', CHR 0x09, CHR 0x0A, CHR 0x0B, CHR 0x0C, CHR 0x0D])"

definition is_digit :: "char \<Rightarrow> bool" where
  "is_digit c = (48 \<le> (of_char c :: nat) \<and> (of_char c :: nat) \<le> 57)"

definition strip :: "string \<Rightarrow> string" where
  "strip s = rev (dropWhile is_space (rev (dropWhile is_space s)))"

definition digits_value :: "string \<Rightarrow> nat option" where
  "digits_value s =
     (if s \<noteq> [] \<and> list_all is_digit s
      then Some (foldl (\<lambda>acc c. 10 * acc + (of_char c - 48)) 0 s)
      else None)"

definition py_int :: "string \<Rightarrow> int option" where
  "py_int s =
     (case strip s of
        [] \<Rightarrow> None
      | c # cs \<Rightarrow>
          if c = CHR ''-'' then map_option (\<lambda>n. - int n) (digits_value cs)
          else if c = CHR ''+'' then map_option int (digits_value cs)
          else map_option int (digits_value (c # cs)))"

text \<open>The dictionary \<open>_bands\<close> as an association list with distinct keys.\<close>

definition default_bands :: "int \<Rightarrow> int \<Rightarrow> int \<Rightarrow> int \<Rightarrow> int \<Rightarrow> int \<Rightarrow> (string \<times> int) list" where
  "default_bands blue green red nir swir1 swir2 =
     [(''blue'', blue), (''green'', green), (''red'', red),
      (''nir'', nir), (''swir1'', swir1), (''swir2'', swir2)]"

text \<open>
  \<^verbatim>\<open>for k, v in band.iteritems():\<close>
  \<^verbatim>\<open>    try: _bands.update({k: int(v)})\<close>
  \<^verbatim>\<open>    except ValueError: raise click.BadParameter(...)\<close>
  where \<open>band\<close> holds the NAME=INDEX pairs of the \<open>--band\<close> options, both as strings.
\<close>

fun merge_user_bands :: "(string \<times> int) list \<Rightarrow> (string \<times> string) list \<Rightarrow> error + (string \<times> int) list" where
  "merge_user_bands bands [] = Inr bands"
| "merge_user_bands bands ((k, v) # rest) =
     (case py_int v of
        None \<Rightarrow> Inl BadParameter
      | Some i \<Rightarrow> merge_user_bands (AList.update k i bands) rest)"

text \<open>
  \<^verbatim>\<open>crit_indices = {k: v - 1 for k, v in _bands.iteritems() if k in expr}\<close>
  where \<open>expr\<close> is the expression's text, so that \<open>k in expr\<close> is the substring test.
\<close>

definition crit_indices :: "(string \<times> int) list \<Rightarrow> string \<Rightarrow> (string \<times> int) list" where
  "crit_indices bands src = map (\<lambda>(k, v). (k, v - 1)) (filter (\<lambda>(k, v). sublist k src) bands)"

subsection \<open>The expression evaluator\<close>

text \<open>
  Modelled from the spec: \<open>snuggs.eval\<close>, the parser and evaluator of the third-party
  library \<open>snuggs\<close>, which the script calls at line 179 and whose code is not part of the
  repository. The spec (section 4.2) describes it: a textual S-expression in prefix notation
  \<open>(function arg1 arg2 ...)\<close>, whose arguments are nested expressions or band-name
  identifiers; the arithmetic operators \<open>+ - * /\<close> work elementwise on arrays of shape
  (image, row, col); the outermost node must be one of the selection functions, applied to
  a single argument; an expression that does not reduce to an index array, an unsupported
  operator and an unregistered name are errors, detected when the expression is resolved
  against the names it is given, before any arithmetic. Values are exact rationals: the
  wrap-around of integer pixel types and the rounding of floating point are not modelled.
\<close>

datatype token = LParen | RParen | Sym string

definition flush :: "string \<Rightarrow> token list \<Rightarrow> token list" where
  "flush acc ts = (if acc = [] then ts else Sym (rev acc) # ts)"

fun tokenize :: "string \<Rightarrow> string \<Rightarrow> token list" where
  "tokenize acc [] = flush acc []"
| "tokenize acc (c # cs) =
     (if c = CHR ''('' then flush acc (LParen # tokenize [] cs)
      else if c = CHR '')'' then flush acc (RParen # tokenize [] cs)
      else if is_space c then flush acc (tokenize [] cs)
      else tokenize (c # acc) cs)"

datatype sexp = Atom string | Node "sexp list"

text \<open>
  A parser with a stack of open lists, each held in reverse; the bottom of the stack
  collects the top-level expressions.
\<close>

fun parse_stack :: "token list \<Rightarrow> sexp list list \<Rightarrow> error + sexp list" where
  "parse_stack [] [res] = Inr (rev res)"
| "parse_stack [] _ = Inl ExpressionError"
| "parse_stack (LParen # ts) st = parse_stack ts ([] # st)"
| "parse_stack (RParen # ts) (f # g # st) = parse_stack ts ((Node (rev f) # g) # st)"
| "parse_stack (RParen # ts) _ = Inl ExpressionError"
| "parse_stack (Sym s # ts) (f # st) = parse_stack ts ((Atom s # f) # st)"
| "parse_stack (Sym s # ts) [] = Inl ExpressionError"

definition parse :: "string \<Rightarrow> error + sexp" where
  "parse src =
     (case parse_stack (tokenize [] src) [[]] of
        Inr [e] \<Rightarrow> Inr e
      | _ \<Rightarrow> Inl ExpressionError)"

text \<open>
  The free identifiers of an expression: its atoms in argument position. The atom that
  heads a list names a function or an operator.
\<close>

fun identifiers :: "sexp \<Rightarrow> string list" where
  "identifiers (Atom x) = [x]"
| "identifiers (Node []) = []"
| "identifiers (Node (Atom f # args)) = concat (map identifiers args)"
| "identifiers (Node (Node h # args)) = concat (map identifiers (Node h # args))"

definition free_identifiers :: "string \<Rightarrow> string list" where
  "free_identifiers src = (case parse src of Inl _ \<Rightarrow> [] | Inr e \<Rightarrow> identifiers e)"

definition is_operator :: "string \<Rightarrow> bool" where
  "is_operator f = (f \<in> set [''+'', ''-'', ''*'', ''/''])"

text \<open>
  An arithmetic expression is resolved when every identifier is one of the names given and
  every list is an operator applied to at least one resolved argument.
\<close>

fun resolved :: "string list \<Rightarrow> sexp \<Rightarrow> bool" where
  "resolved names (Atom x) = (x \<in> set names)"
| "resolved names (Node []) = False"
| "resolved names (Node (Node h # args)) = False"
| "resolved names (Node (Atom f # args)) =
     (is_operator f \<and> args \<noteq> [] \<and> list_all (resolved names) args)"

definition elementwise :: "(rat \<Rightarrow> rat \<Rightarrow> rat) \<Rightarrow> rat arr3 \<Rightarrow> rat arr3 \<Rightarrow> rat arr3" where
  "elementwise f a b = map2 (map2 (map2 f)) a b"

definition has_zero :: "rat arr3 \<Rightarrow> bool" where
  "has_zero a = list_ex (list_ex (list_ex (\<lambda>x. x = 0))) a"

definition apply_op :: "string \<Rightarrow> rat arr3 \<Rightarrow> rat arr3 \<Rightarrow> error + rat arr3" where
  "apply_op f a b =
     (if f = ''+'' then Inr (elementwise (\<lambda>x y. x + y) a b)
      else if f = ''-'' then Inr (elementwise (\<lambda>x y. x - y) a b)
      else if f = ''*'' then Inr (elementwise (\<lambda>x y. x * y) a b)
      else if f = ''/'' then
        (if has_zero b then Inl NonFinite else Inr (elementwise (\<lambda>x y. x / y) a b))
      else Inl ExpressionError)"

text \<open>An operator with several arguments folds them from the left.\<close>

fun reduce_op :: "string \<Rightarrow> rat arr3 \<Rightarrow> rat arr3 list \<Rightarrow> error + rat arr3" where
  "reduce_op f acc [] = Inr acc"
| "reduce_op f acc (v # vs) =
     (case apply_op f acc v of Inl e \<Rightarrow> Inl e | Inr acc' \<Rightarrow> reduce_op f acc' vs)"

fun collect :: "(error + 'a) list \<Rightarrow> error + 'a list" where
  "collect [] = Inr []"
| "collect (Inl e # rs) = Inl e"
| "collect (Inr v # rs) = (case collect rs of Inl e \<Rightarrow> Inl e | Inr vs \<Rightarrow> Inr (v # vs))"

fun eval_arith :: "(string \<times> rat arr3) list \<Rightarrow> sexp \<Rightarrow> error + rat arr3" where
  "eval_arith ctx (Atom x) =
     (case map_of ctx x of None \<Rightarrow> Inl ExpressionError | Some a \<Rightarrow> Inr a)"
| "eval_arith ctx (Node []) = Inl ExpressionError"
| "eval_arith ctx (Node (Node h # args)) = Inl ExpressionError"
| "eval_arith ctx (Node (Atom f # args)) =
     (case collect (map (eval_arith ctx) args) of
        Inl e \<Rightarrow> Inl e
      | Inr [] \<Rightarrow> Inl ExpressionError
      | Inr (v # vs) \<Rightarrow> reduce_op f v vs)"

text \<open>The outermost node: a selection function applied to one argument.\<close>

fun top_selection :: "sexp \<Rightarrow> (string \<times> sexp) option" where
  "top_selection (Node [Atom f, arg]) = Some (f, arg)"
| "top_selection _ = None"

text \<open>
  Modelled from the spec: \<open>snuggs.eval(expr, **crit)\<close>, missing from the repository's
  sources. The text is parsed; the outermost node must be a selection function of
  \<open>func_map\<close> (the three functions that lines 143-147 install) with one argument; the
  argument is resolved against the names of \<open>crit\<close> and evaluated; the selection function
  gives the index array. Everything else is an \<open>ExpressionError\<close>.
\<close>

definition snuggs_eval :: "string \<Rightarrow> (string \<times> rat arr3) list \<Rightarrow> error + int arr2" where
  "snuggs_eval src ctx =
     (case parse src of
        Inl e \<Rightarrow> Inl e
      | Inr e \<Rightarrow>
          (case top_selection e of
             None \<Rightarrow> Inl ExpressionError
           | Some (f, arg) \<Rightarrow>
               (case func_map f of
                  None \<Rightarrow> Inl ExpressionError
                | Some sel \<Rightarrow>
                    if resolved (map fst ctx) arg
                    then (case eval_arith ctx arg of
                            Inl err \<Rightarrow> Inl err
                          | Inr a \<Rightarrow> map_sum id (map (map int)) (sel a))
                    else Inl ExpressionError)))"




subsection \<open>Rasters, files and events\<close>

text \<open>
  What the script uses of an open raster: the number of bands (\<open>meta['count']\<close>), the
  block shape of every band, the block windows of band 1, and reading a window, which
  gives an array of shape (band, row, col). A window is a pair of a row range and a column
  range. The files are a map from paths to rasters; opening a path that holds none raises
  \<open>IOError\<close>. The output path is taken to differ from every input path, so that opening
  the output leaves the inputs as they are.
\<close>

type_synonym window = "(nat \<times> nat) \<times> (nat \<times> nat)"

record 'a raster =
  count :: nat
  block_shapes :: "(nat \<times> nat) list"
  block_windows :: "window list"
  read :: "window \<Rightarrow> error + 'a arr3"

datatype 'a event =
  OpenRead string
  | OpenWrite string
  | ReadWindow string window
  | WriteBand nat window "'a arr2"

record config =
  opt_inputs :: "string list"
  opt_algo :: "string option"
  opt_expr :: "string option"
  opt_output :: string
  opt_blue :: int
  opt_green :: int
  opt_red :: int
  opt_nir :: int
  opt_swir1 :: int
  opt_swir2 :: int
  opt_band :: "(string \<times> string) list"
  opt_verbose :: bool

subsection \<open>Processing one block (lines 172-188)\<close>

text \<open>
  \<open>dat[j, ...] = src.read(masked=True, window=window)\<close>: the array read is broadcast to the
  shape (band, row, col) of the buffer's entry, or the assignment raises \<open>ValueError\<close>.
\<close>

definition fits :: "nat \<Rightarrow> nat \<Rightarrow> bool" where
  "fits n k = (k = n \<or> k = 1)"

definition assign_block :: "nat \<Rightarrow> nat \<Rightarrow> nat \<Rightarrow> 'a arr3 \<Rightarrow> error + 'a arr3" where
  "assign_block nb nr nc a =
     (if fits nb (length a) \<and> fits nr (nrows3 a) \<and> fits nc (ncols3 a)
      then Inr (bcast_dim nb (map (bcast2 nr nc) a))
      else Inl ValueError)"

fun read_inputs ::
  "(string \<Rightarrow> 'a raster option) \<Rightarrow> nat \<Rightarrow> nat \<Rightarrow> nat \<Rightarrow> window \<Rightarrow> string list
   \<Rightarrow> 'a event list \<times> (error + 'a arr4)" where
  "read_inputs fs nb nr nc w [] = ([], Inr [])"
| "read_inputs fs nb nr nc w (fname # rest) =
     (case fs fname of
        None \<Rightarrow> ([], Inl IOError)
      | Some src \<Rightarrow>
          (case read src w of
             Inl e \<Rightarrow> ([OpenRead fname, ReadWindow fname w], Inl e)
           | Inr a \<Rightarrow>
               (case assign_block nb nr nc a of
                  Inl e \<Rightarrow> ([OpenRead fname, ReadWindow fname w], Inl e)
                | Inr blk \<Rightarrow>
                    (case read_inputs fs nb nr nc w rest of
                       (evs, Inl e) \<Rightarrow> (OpenRead fname # ReadWindow fname w # evs, Inl e)
                     | (evs, Inr dat) \<Rightarrow>
                         (OpenRead fname # ReadWindow fname w # evs, Inr (blk # dat))))))"

text \<open>
  \<^verbatim>\<open>crit = {k: dat[:, v, ...] for k, v in crit_indices.iteritems()}\<close>
  The band axis has length \<open>nb\<close>; an index outside it raises \<open>IndexError\<close>.
\<close>

definition crit_slices :: "nat \<Rightarrow> 'a arr4 \<Rightarrow> (string \<times> int) list \<Rightarrow> error + (string \<times> 'a arr3) list" where
  "crit_slices nb dat ci =
     (if list_all (\<lambda>(k, v). in_range nb v) ci
      then Inr (map (\<lambda>(k, v). (k, map (\<lambda>img. img ! wrap nb v) dat)) ci)
      else Inl IndexError)"

text \<open>
  \<^verbatim>\<open>for i_b in range(composite.shape[-1]):\<close>
  \<^verbatim>\<open>    dst.write(composite[:, :, i_b], indexes=i_b + 1, window=window)\<close>
\<close>

definition write_block :: "nat \<Rightarrow> window \<Rightarrow> 'a arr3 \<Rightarrow> 'a event list" where
  "write_block nb w composite = map (\<lambda>i_b. WriteBand (i_b + 1) w (band_of composite i_b)) [0..<nb]"

text \<open>
  One pass of the loop body. The evaluator \<open>ev\<close> stands for \<open>snuggs.eval\<close>: it gets the
  expression's text and the named band slices and returns the index array or raises.
\<close>

definition process_block ::
  "(string \<Rightarrow> (string \<times> 'a arr3) list \<Rightarrow> error + int arr2) \<Rightarrow> (string \<Rightarrow> 'a raster option)
   \<Rightarrow> string \<Rightarrow> (string \<times> int) list \<Rightarrow> string list \<Rightarrow> nat \<Rightarrow> nat \<Rightarrow> nat \<Rightarrow> window
   \<Rightarrow> 'a event list \<times> (error + unit)" where
  "process_block ev fs src ci fnames nb nr nc w =
     (case read_inputs fs nb nr nc w fnames of
        (evs, Inl e) \<Rightarrow> (evs, Inl e)
      | (evs, Inr dat) \<Rightarrow>
          (case crit_slices nb dat ci of
             Inl e \<Rightarrow> (evs, Inl e)
           | Inr crit \<Rightarrow>
               (case ev src crit of
                  Inl e \<Rightarrow> (evs, Inl e)
                | Inr crit_idx \<Rightarrow>
                    (case composite_block nr nc dat crit_idx of
                       Inl e \<Rightarrow> (evs, Inl e)
                     | Inr composite \<Rightarrow> (evs @ write_block nb w composite, Inr ())))))"

fun process_windows ::
  "(string \<Rightarrow> (string \<times> 'a arr3) list \<Rightarrow> error + int arr2) \<Rightarrow> (string \<Rightarrow> 'a raster option)
   \<Rightarrow> string \<Rightarrow> (string \<times> int) list \<Rightarrow> string list \<Rightarrow> nat \<Rightarrow> nat \<Rightarrow> nat \<Rightarrow> window list
   \<Rightarrow> 'a event list \<times> (error + unit)" where
  "process_windows ev fs src ci fnames nb nr nc [] = ([], Inr ())"
| "process_windows ev fs src ci fnames nb nr nc (w # ws) =
     (case process_block ev fs src ci fnames nb nr nc w of
        (evs, Inl e) \<Rightarrow> (evs, Inl e)
      | (evs, Inr u) \<Rightarrow>
          (case process_windows ev fs src ci fnames nb nr nc ws of
             (evs', r) \<Rightarrow> (evs @ evs', r)))"

subsection \<open>The command (lines 81-188)\<close>

text \<open>
  The callbacks of the six named band options run before the body. The result is the log,
  the events in the order they happened, and the exception the run ended with, if any.
\<close>

definition named_bands_valid :: "config \<Rightarrow> bool" where
  "named_bands_valid cfg =
     list_all (\<lambda>v. valid_band v = Inr v)
       [opt_blue cfg, opt_green cfg, opt_red cfg, opt_nir cfg, opt_swir1 cfg, opt_swir2 cfg]"

definition image_composite ::
  "(string \<Rightarrow> (string \<times> 'a arr3) list \<Rightarrow> error + int arr2) \<Rightarrow> (string \<Rightarrow> 'a raster option)
   \<Rightarrow> config \<Rightarrow> log_record list \<times> 'a event list \<times> (error + unit)" where
  "image_composite ev fs cfg =
     (if \<not> named_bands_valid cfg then ([], [], Inl BadParameter)
      else
        case select_criterion (opt_verbose cfg) (opt_algo cfg) (opt_expr cfg) of
          (lg, Inl e) \<Rightarrow> (lg, [], Inl e)
        | (lg, Inr src) \<Rightarrow>
            (case merge_user_bands
                    (default_bands (opt_blue cfg) (opt_green cfg) (opt_red cfg)
                                   (opt_nir cfg) (opt_swir1 cfg) (opt_swir2 cfg))
                    (opt_band cfg) of
               Inl e \<Rightarrow> (lg, [], Inl e)
             | Inr bands \<Rightarrow>
                 (case opt_inputs cfg of
                    [] \<Rightarrow> (lg, [], Inl IndexError)
                  | first_name # _ \<Rightarrow>
                      (case fs first_name of
                         None \<Rightarrow> (lg, [], Inl IOError)
                       | Some first \<Rightarrow>
                           if length (remdups (block_shapes first)) \<noteq> 1
                           then (lg, [OpenRead first_name], Inl Abort)
                           else
                             (case block_shapes first of
                                [] \<Rightarrow> (lg, [OpenRead first_name], Inl IndexError)
                              | (block_nrow, block_ncol) # _ \<Rightarrow>
                                  (case process_windows ev fs src (crit_indices bands src)
                                          (opt_inputs cfg) (count first) block_nrow block_ncol
                                          (block_windows first) of
                                     (evs, r) \<Rightarrow>
                                       (lg, OpenRead first_name # OpenWrite (opt_output cfg) # evs,
                                        r)))))))"

subsection \<open>Inputs for the examples\<close>

text \<open>
  The options as the command line leaves them when only the inputs are given: the
  defaults of lines 55-80.
\<close>

definition default_config :: "string list \<Rightarrow> config" where
  "default_config fnames =
     \<lparr>opt_inputs = fnames, opt_algo = None, opt_expr = None, opt_output = ''composite.gtif'',
      opt_blue = 1, opt_green = 2, opt_red = 3, opt_nir = 4, opt_swir1 = 5, opt_swir2 = 6,
      opt_band = [], opt_verbose = False\<rparr>"

text \<open>
  A raster of one pixel in one block: the band values are given, every band has the block
  shape (1, 1), the only block window is the pixel, and reading gives the pixel of every band.
\<close>

definition single_pixel_raster :: "'a list \<Rightarrow> 'a raster" where
  "single_pixel_raster vals =
     \<lparr>count = length vals, block_shapes = replicate (length vals) (1, 1),
      block_windows = [((0, 1), (0, 1))], read = (\<lambda>w. Inr (map (\<lambda>v. [[v]]) vals))\<rparr>"

section \<open>Properties\<close>

subsection \<open>The first position of the largest and of the smallest value\<close>

lemma argmax_from_spec:
  "bi < length pre \<Longrightarrow> best = pre ! bi \<Longrightarrow> \<forall>j<length pre. pre ! j \<le> best \<Longrightarrow> \<forall>j<bi. pre ! j < best \<Longrightarrow>
   argmax_from best bi (length pre) xs < length (pre @ xs)
   \<and> (\<forall>j<length (pre @ xs). (pre @ xs) ! j \<le> (pre @ xs) ! argmax_from best bi (length pre) xs)
   \<and> (\<forall>j<argmax_from best bi (length pre) xs. (pre @ xs) ! j < (pre @ xs) ! argmax_from best bi (length pre) xs)"
proof (induction xs arbitrary: pre best bi)
  case Nil
  then show ?case by simp
next
  case (Cons x xs)
  show ?case
  proof (cases "best < x")
    case True
    have a: "length pre < length (pre @ [x])" by simp
    have b: "x = (pre @ [x]) ! length pre" by simp
    have c: "\<forall>j<length (pre @ [x]). (pre @ [x]) ! j \<le> x"
      using Cons.prems True by (auto simp: nth_append less_Suc_eq dest: order.strict_implies_order)
    have d: "\<forall>j<length pre. (pre @ [x]) ! j < x"
      using Cons.prems True by (auto simp: nth_append)
    from Cons.IH[OF a b c d] True show ?thesis by simp
  next
    case False
    have a: "bi < length (pre @ [x])" using Cons.prems by simp
    have b: "best = (pre @ [x]) ! bi" using Cons.prems by (simp add: nth_append)
    have c: "\<forall>j<length (pre @ [x]). (pre @ [x]) ! j \<le> best"
      using Cons.prems False by (auto simp: nth_append less_Suc_eq)
    have d: "\<forall>j<bi. (pre @ [x]) ! j < best"
      using Cons.prems by (auto simp: nth_append)
    from Cons.IH[OF a b c d] False show ?thesis by simp
  qed
qed

lemma argmin_from_spec:
  "bi < length pre \<Longrightarrow> best = pre ! bi \<Longrightarrow> \<forall>j<length pre. best \<le> pre ! j \<Longrightarrow> \<forall>j<bi. best < pre ! j \<Longrightarrow>
   argmin_from best bi (length pre) xs < length (pre @ xs)
   \<and> (\<forall>j<length (pre @ xs). (pre @ xs) ! argmin_from best bi (length pre) xs \<le> (pre @ xs) ! j)
   \<and> (\<forall>j<argmin_from best bi (length pre) xs. (pre @ xs) ! argmin_from best bi (length pre) xs < (pre @ xs) ! j)"
proof (induction xs arbitrary: pre best bi)
  case Nil
  then show ?case by simp
next
  case (Cons x xs)
  show ?case
  proof (cases "x < best")
    case True
    have a: "length pre < length (pre @ [x])" by simp
    have b: "x = (pre @ [x]) ! length pre" by simp
    have c: "\<forall>j<length (pre @ [x]). x \<le> (pre @ [x]) ! j"
      using Cons.prems True by (auto simp: nth_append less_Suc_eq dest: order.strict_implies_order)
    have d: "\<forall>j<length pre. x < (pre @ [x]) ! j"
      using Cons.prems True by (auto simp: nth_append)
    from Cons.IH[OF a b c d] True show ?thesis by simp
  next
    case False
    have a: "bi < length (pre @ [x])" using Cons.prems by simp
    have b: "best = (pre @ [x]) ! bi" using Cons.prems by (simp add: nth_append)
    have c: "\<forall>j<length (pre @ [x]). best \<le> (pre @ [x]) ! j"
      using Cons.prems False by (auto simp: nth_append less_Suc_eq)
    have d: "\<forall>j<bi. best < (pre @ [x]) ! j"
      using Cons.prems by (auto simp: nth_append)
    from Cons.IH[OF a b c d] False show ?thesis by simp
  qed
qed

lemma argmax_first:
  "argmax_from x 0 1 xs < Suc (length xs)
   \<and> (\<forall>j<Suc (length xs). (x # xs) ! j \<le> (x # xs) ! argmax_from x 0 1 xs)
   \<and> (\<forall>j<argmax_from x 0 1 xs. (x # xs) ! j < (x # xs) ! argmax_from x 0 1 xs)"
  using argmax_from_spec[of 0 "[x]" x xs] by simp

lemma argmin_first:
  "argmin_from x 0 1 xs < Suc (length xs)
   \<and> (\<forall>j<Suc (length xs). (x # xs) ! argmin_from x 0 1 xs \<le> (x # xs) ! j)
   \<and> (\<forall>j<argmin_from x 0 1 xs. (x # xs) ! argmin_from x 0 1 xs < (x # xs) ! j)"
  using argmin_from_spec[of 0 "[x]" x xs] by simp

subsection \<open>Selection along the image axis\<close>

lemma shape3_Cons:
  "shape3 (img # rest) n nr nc \<Longrightarrow> length img = nr \<and> (0 < nr \<longrightarrow> ncols2 img = nc) \<and> length rest = n - 1"
  by (cases img) (auto simp: shape3_def shape2_def ncols2_def)

lemma shape3_nth:
  "shape3 a n nr nc \<Longrightarrow> j < n \<Longrightarrow> r < nr \<Longrightarrow> length (a ! j) = nr \<and> length (a ! j ! r) = nc"
  by (auto simp: shape3_def shape2_def list_all_length)

lemma pixel_stack_Cons: "(img ! r ! c) # pixel_stack rest r c = pixel_stack (img # rest) r c"
  by (simp add: pixel_stack_def)

lemma pixel_stack_nth: "j < length a \<Longrightarrow> pixel_stack a r c ! j = a ! j ! r ! c"
  by (simp add: pixel_stack_def)

lemma length_pixel_stack: "length (pixel_stack a r c) = length a"
  by (simp add: pixel_stack_def)

lemma np_argmax_axis0_spec:
  assumes "shape3 a n nr nc" "0 < n"
  shows "\<exists>mx. np_argmax_axis0 a = Inr mx \<and> shape2 mx nr nc \<and>
     (\<forall>r<nr. \<forall>c<nc. mx ! r ! c < n \<and> (\<forall>j<n. a ! j ! r ! c \<le> a ! (mx ! r ! c) ! r ! c)
        \<and> (\<forall>j<mx ! r ! c. a ! j ! r ! c < a ! (mx ! r ! c) ! r ! c))"
proof -
  from assms obtain img rest where a: "a = img # rest"
    by (cases a) (auto simp: shape3_def)
  have n: "length a = n" using assms by (simp add: shape3_def)
  from assms a have img: "length img = nr" "0 < nr \<longrightarrow> ncols2 img = nc"
    using shape3_Cons by blast+
  define mx where "mx = map (\<lambda>r. map (\<lambda>c. argmax_from (img ! r ! c) 0 1 (pixel_stack rest r c))
                           [0..<ncols2 img]) [0..<length img]"
  have res: "np_argmax_axis0 a = Inr mx"
    by (simp add: np_argmax_axis0_def a mx_def)
  have shp: "shape2 mx nr nc"
    using img by (auto simp: shape2_def mx_def list_all_length)
  have px: "mx ! r ! c < n \<and> (\<forall>j<n. a ! j ! r ! c \<le> a ! (mx ! r ! c) ! r ! c)
        \<and> (\<forall>j<mx ! r ! c. a ! j ! r ! c < a ! (mx ! r ! c) ! r ! c)" if "r < nr" "c < nc" for r c
  proof -
    let ?k = "argmax_from (img ! r ! c) 0 1 (pixel_stack rest r c)"
    have k: "mx ! r ! c = ?k" using that img by (simp add: mx_def)
    have len: "Suc (length (pixel_stack rest r c)) = n" using n a by (simp add: length_pixel_stack)
    note f = argmax_first[of "img ! r ! c" "pixel_stack rest r c", unfolded pixel_stack_Cons len, folded a]
    from f have k_lt: "?k < n" by blast
    have nth: "pixel_stack a r c ! j = a ! j ! r ! c" if "j < n" for j
      using that n by (simp add: pixel_stack_nth)
    show ?thesis unfolding k
    proof (intro conjI allI impI)
      show "?k < n" by (rule k_lt)
    next
      fix j assume "j < n"
      with f have "pixel_stack a r c ! j \<le> pixel_stack a r c ! ?k" by blast
      then show "a ! j ! r ! c \<le> a ! ?k ! r ! c" using nth \<open>j < n\<close> k_lt by simp
    next
      fix j assume j: "j < ?k"
      with f have "pixel_stack a r c ! j < pixel_stack a r c ! ?k" by blast
      moreover have "j < n" using j k_lt by simp
      ultimately show "a ! j ! r ! c < a ! ?k ! r ! c" using nth k_lt by simp
    qed
  qed
  from res shp px show ?thesis by blast
qed

lemma np_argmin_axis0_spec:
  assumes "shape3 a n nr nc" "0 < n"
  shows "\<exists>mn. np_argmin_axis0 a = Inr mn \<and> shape2 mn nr nc \<and>
     (\<forall>r<nr. \<forall>c<nc. mn ! r ! c < n \<and> (\<forall>j<n. a ! (mn ! r ! c) ! r ! c \<le> a ! j ! r ! c)
        \<and> (\<forall>j<mn ! r ! c. a ! (mn ! r ! c) ! r ! c < a ! j ! r ! c))"
proof -
  from assms obtain img rest where a: "a = img # rest"
    by (cases a) (auto simp: shape3_def)
  have n: "length a = n" using assms by (simp add: shape3_def)
  from assms a have img: "length img = nr" "0 < nr \<longrightarrow> ncols2 img = nc"
    using shape3_Cons by blast+
  define mn where "mn = map (\<lambda>r. map (\<lambda>c. argmin_from (img ! r ! c) 0 1 (pixel_stack rest r c))
                           [0..<ncols2 img]) [0..<length img]"
  have res: "np_argmin_axis0 a = Inr mn"
    by (simp add: np_argmin_axis0_def a mn_def)
  have shp: "shape2 mn nr nc"
    using img by (auto simp: shape2_def mn_def list_all_length)
  have px: "mn ! r ! c < n \<and> (\<forall>j<n. a ! (mn ! r ! c) ! r ! c \<le> a ! j ! r ! c)
        \<and> (\<forall>j<mn ! r ! c. a ! (mn ! r ! c) ! r ! c < a ! j ! r ! c)" if "r < nr" "c < nc" for r c
  proof -
    let ?k = "argmin_from (img ! r ! c) 0 1 (pixel_stack rest r c)"
    have k: "mn ! r ! c = ?k" using that img by (simp add: mn_def)
    have len: "Suc (length (pixel_stack rest r c)) = n" using n a by (simp add: length_pixel_stack)
    note f = argmin_first[of "img ! r ! c" "pixel_stack rest r c", unfolded pixel_stack_Cons len, folded a]
    from f have k_lt: "?k < n" by blast
    have nth: "pixel_stack a r c ! j = a ! j ! r ! c" if "j < n" for j
      using that n by (simp add: pixel_stack_nth)
    show ?thesis unfolding k
    proof (intro conjI allI impI)
      show "?k < n" by (rule k_lt)
    next
      fix j assume "j < n"
      with f have "pixel_stack a r c ! ?k \<le> pixel_stack a r c ! j" by blast
      then show "a ! ?k ! r ! c \<le> a ! j ! r ! c" using nth \<open>j < n\<close> k_lt by simp
    next
      fix j assume j: "j < ?k"
      with f have "pixel_stack a r c ! ?k < pixel_stack a r c ! j" by blast
      moreover have "j < n" using j k_lt by simp
      ultimately show "a ! ?k ! r ! c < a ! j ! r ! c" using nth k_lt by simp
    qed
  qed
  from res shp px show ?thesis by blast
qed

lemma min_blue_example:
  "snuggs_eval ''(min blue)'' [(''blue'', [[[5]], [[50]], [[20]]])] = Inr [[0]]"
  by code_simp

text \<open>
  Claim C4. For an array of shape (image, row, col) with at least one image, \<open>max\<close> returns
  an array of shape (row, col) whose entry at a pixel is the position, along the image axis,
  of the largest value of that pixel, and \<open>min\<close> that of the smallest value (in both cases
  the first such position); and for three images with blue values 5, 50 and 20 the
  expression \<open>(min blue)\<close> selects position 0, the image with blue = 5.
\<close>

theorem sel_max_min_index:
  assumes "shape3 a n nr nc" and "0 < n"
  shows "(\<exists>mx. sel_max a = Inr mx \<and> shape2 mx nr nc \<and>
            (\<forall>r<nr. \<forall>c<nc. mx ! r ! c < n
               \<and> (\<forall>j<n. a ! j ! r ! c \<le> a ! (mx ! r ! c) ! r ! c)
               \<and> (\<forall>j<mx ! r ! c. a ! j ! r ! c < a ! (mx ! r ! c) ! r ! c)))
       \<and> (\<exists>mn. sel_min a = Inr mn \<and> shape2 mn nr nc \<and>
            (\<forall>r<nr. \<forall>c<nc. mn ! r ! c < n
               \<and> (\<forall>j<n. a ! (mn ! r ! c) ! r ! c \<le> a ! j ! r ! c)
               \<and> (\<forall>j<mn ! r ! c. a ! (mn ! r ! c) ! r ! c < a ! j ! r ! c)))
       \<and> snuggs_eval ''(min blue)'' [(''blue'', [[[5]], [[50]], [[20]]])] = Inr [[0]]"
  unfolding sel_max_def sel_min_def
  using np_argmax_axis0_spec[OF assms] np_argmin_axis0_spec[OF assms] min_blue_example
  by blast

theorem sel_max_min_index_witness:
  "shape3 [[[5]], [[50]], [[20::rat]]] 3 1 1 \<and> (0::nat) < 3
   \<and> sel_max [[[5]], [[50]], [[20::rat]]] = Inr [[1]]
   \<and> sel_min [[[5]], [[50]], [[20::rat]]] = Inr [[0]]"
proof -
  have h1: "shape3 [[[5]], [[50]], [[20::rat]]] 3 1 1"
    by (simp add: shape3_def shape2_def)
  have h2: "(0::nat) < 3" by simp
  have mx: "sel_max [[[5]], [[50]], [[20::rat]]] = Inr [[1]]" by code_simp
  have mn: "sel_min [[[5]], [[50]], [[20::rat]]] = Inr [[0]]" by code_simp
  from sel_max_min_index[OF h1 h2] h1 h2 mx mn show ?thesis by simp
qed

subsection \<open>The criterion\<close>

text \<open>
  Claim C10. When a predefined algorithm and an expression are both given, the criterion is
  the algorithm's expression and a warning is logged; with an algorithm given, neither the
  criterion nor the events and the result of the run depend on the expression option.
\<close>

theorem algo_overrides_expr:
  assumes "map_of ALGO a = Some e"
  shows "select_criterion v (Some a) (Some x) =
           ([LogWarning (''Predefined algorithm and expression both defined. ''
                         @ ''Composite will be generated with predefined algorithm''),
             LogInfo (''Compositing criteria S-expression: '' @ e)], Inr e)
       \<and> snd (select_criterion v (Some a) y) = Inr e
       \<and> snd (image_composite ev fs (cfg\<lparr>opt_algo := Some a, opt_expr := y\<rparr>))
           = snd (image_composite ev fs (cfg\<lparr>opt_algo := Some a, opt_expr := z\<rparr>))"
proof -
  have ne: "a \<noteq> []" using assms by (auto simp: ALGO_def split: if_splits)
  have s: "snd (select_criterion v (Some a) y) = Inr e" for v y
    using assms ne by (cases y) (auto simp: select_criterion_def py_not_def Let_def)
  have first: "select_criterion v (Some a) (Some x) =
           ([LogWarning (''Predefined algorithm and expression both defined. ''
                         @ ''Composite will be generated with predefined algorithm''),
             LogInfo (''Compositing criteria S-expression: '' @ e)], Inr e)"
    using assms ne by (simp add: select_criterion_def py_not_def Let_def)
  have run: "snd (image_composite ev fs (cfg\<lparr>opt_algo := Some a, opt_expr := y\<rparr>))
           = snd (image_composite ev fs (cfg\<lparr>opt_algo := Some a, opt_expr := z\<rparr>))"
  proof -
    obtain l1 where l1: "select_criterion (opt_verbose cfg) (Some a) y = (l1, Inr e)"
      using s[of "opt_verbose cfg" y] by (cases "select_criterion (opt_verbose cfg) (Some a) y") auto
    obtain l2 where l2: "select_criterion (opt_verbose cfg) (Some a) z = (l2, Inr e)"
      using s[of "opt_verbose cfg" z] by (cases "select_criterion (opt_verbose cfg) (Some a) z") auto
    show ?thesis
      by (simp add: image_composite_def named_bands_valid_def l1 l2
               split: sum.splits list.splits option.splits prod.splits)
  qed
  from first s run show ?thesis by blast
qed

theorem algo_overrides_expr_witness:
  "map_of ALGO ''minBlue'' = Some ''(min blue)''
   \<and> snd (select_criterion False (Some ''minBlue'') (Some ''(max nir)'')) = Inr ''(min blue)''"
proof -
  have h: "map_of ALGO ''minBlue'' = Some ''(min blue)''" by (simp add: ALGO_def)
  have "snd (select_criterion False (Some ''minBlue'') (Some ''(max nir)'')) = Inr ''(min blue)''"
    by (rule algo_overrides_expr[OF h, THEN conjunct2, THEN conjunct1])
  with h show ?thesis by simp
qed

subsection \<open>The band map\<close>

text \<open>
  Claim C9, at the input \<open>--band foo=0\<close>. The callback of the named band options refuses
  the index 0, but the merge of the \<open>--band\<close> pairs accepts it: the band map gets
  \<open>foo\<close> with index 0, and the criterion \<open>(max foo)\<close> then reads the band at offset -1,
  the last band of every image.
\<close>

theorem user_band_zero_accepted:
  "valid_band 0 = Inl BadParameter
   \<and> merge_user_bands (default_bands 1 2 3 4 5 6) [(''foo'', ''0'')]
       = Inr [(''blue'', 1), (''green'', 2), (''red'', 3), (''nir'', 4), (''swir1'', 5),
              (''swir2'', 6), (''foo'', 0)]
   \<and> crit_indices [(''blue'', 1), (''green'', 2), (''red'', 3), (''nir'', 4), (''swir1'', 5),
              (''swir2'', 6), (''foo'', 0)] ''(max foo)'' = [(''foo'', - 1)]"
  by code_simp

subsection \<open>The gather\<close>

lemma wrap_less: "in_range n i \<Longrightarrow> wrap n i < n"
  by (auto simp: in_range_def wrap_def)

lemma wrap_int: "wrap n (int k) = k"
  by (simp add: wrap_def)

lemma in_range_int: "k < n \<Longrightarrow> in_range n (int k)"
  by (simp add: in_range_def)

lemma bcast_len_same: "bcast_len n n = Some n"
  by (simp add: bcast_len_def)

lemma bcast_dim_same: "length xs = n \<Longrightarrow> bcast_dim n xs = xs"
  by (cases xs rule: list.exhaust; cases "tl xs") (auto simp: bcast_dim_def split: list.splits)

lemma shape2_ncols2: "shape2 a nr nc \<Longrightarrow> ncols2 a = (if nr = 0 then 0 else nc)"
  by (cases a) (auto simp: shape2_def ncols2_def)

lemma shape2_nth: "shape2 a nr nc \<Longrightarrow> r < nr \<Longrightarrow> length (a ! r) = nc"
  by (auto simp: shape2_def list_all_length)

lemma bcast2_same: "shape2 a nr nc \<Longrightarrow> bcast2 nr (ncols2 a) a = a"
proof -
  assume s: "shape2 a nr nc"
  have "map (bcast_dim (ncols2 a)) a = a"
  proof (rule map_idI)
    fix row assume "row \<in> set a"
    then have "length row = nc" "nr \<noteq> 0" using s by (auto simp: shape2_def list_all_iff)
    then show "bcast_dim (ncols2 a) row = row"
      using shape2_ncols2[OF s] by (simp add: bcast_dim_same)
  qed
  then show ?thesis using s by (simp add: bcast2_def bcast_dim_same shape2_def)
qed

lemma meshgrid_shape:
  "shape2 (fst (meshgrid_ij nr nc)) nr nc \<and> shape2 (snd (meshgrid_ij nr nc)) nr nc"
  by (auto simp: meshgrid_ij_def shape2_def list_all_length)

lemma meshgrid_nth:
  "r < nr \<Longrightarrow> c < nc \<Longrightarrow>
   fst (meshgrid_ij nr nc) ! r ! c = int r \<and> snd (meshgrid_ij nr nc) ! r ! c = int c"
  by (simp add: meshgrid_ij_def)

lemma meshgrid_in_range:
  "list_all (list_all (in_range nr)) (fst (meshgrid_ij nr nc))
   \<and> list_all (list_all (in_range nc)) (snd (meshgrid_ij nr nc))"
  by (auto simp: meshgrid_ij_def list_all_length in_range_def)

lemma shape4_nth:
  "shape4 dat n nb nr nc \<Longrightarrow> i < n \<Longrightarrow> shape3 (dat ! i) nb nr nc"
  by (auto simp: shape4_def list_all_length)

lemma rollaxis_nth:
  "i < length dat \<Longrightarrow> r < nr \<Longrightarrow> c < nc \<Longrightarrow>
   rollaxis_1_4 nr nc dat ! i ! r ! c = map (\<lambda>bnd. bnd ! r ! c) (dat ! i)"
  by (simp add: rollaxis_1_4_def)

lemma length_rollaxis: "length (rollaxis_1_4 nr nc dat) = length dat"
  by (simp add: rollaxis_1_4_def)

lemma composite_block_spec:
  assumes dat: "shape4 dat n nb nr nc"
    and ci: "shape2 crit_idx nr nc"
    and rng: "list_all (list_all (in_range n)) crit_idx"
  shows "\<exists>comp. composite_block nr nc dat crit_idx = Inr comp \<and> shape3 comp nr nc nb
           \<and> (\<forall>r<nr. \<forall>c<nc. \<forall>b<nb.
                 comp ! r ! c ! b = dat ! wrap n (crit_idx ! r ! c) ! b ! r ! c)"
proof -
  obtain mi mj where m: "meshgrid_ij nr nc = (mi, mj)" by (cases "meshgrid_ij nr nc")
  have mi: "shape2 mi nr nc" and mj: "shape2 mj nr nc"
    using meshgrid_shape[of nr nc] m by simp_all
  have n: "length dat = n" using dat by (simp add: shape4_def)
  let ?C = "ncols2 crit_idx"
  let ?rolled = "rollaxis_1_4 nr nc dat"
  have cols: "ncols2 mi = ?C" "ncols2 mj = ?C"
    using shape2_ncols2[OF ci] shape2_ncols2[OF mi] shape2_ncols2[OF mj] by simp_all
  have C: "0 < nr \<Longrightarrow> ?C = nc" using shape2_ncols2[OF ci] by simp
  have len: "length crit_idx = nr" "length mi = nr" using ci mi by (simp_all add: shape2_def)
  define comp where "comp = map (\<lambda>r. map (\<lambda>c. ?rolled ! wrap n (crit_idx ! r ! c)
                                 ! wrap nr (mi ! r ! c) ! wrap nc (mj ! r ! c)) [0..<?C]) [0..<nr]"
  have b1: "bcast2 nr ?C crit_idx = crit_idx" by (rule bcast2_same[OF ci])
  have b2: "bcast2 nr ?C mi = mi" using bcast2_same[OF mi] cols by simp
  have b3: "bcast2 nr ?C mj = mj" using bcast2_same[OF mj] cols by simp
  have r2: "list_all (list_all (in_range nr)) mi" "list_all (list_all (in_range nc)) mj"
    using meshgrid_in_range[of nr nc] m by simp_all
  have res: "composite_block nr nc dat crit_idx = Inr comp"
    by (simp add: composite_block_def m fancy_index_def len cols bcast_len_same b1 b2 b3
          rng r2 length_rollaxis n comp_def Let_def)
  have px: "comp ! r ! c = map (\<lambda>bnd. bnd ! r ! c) (dat ! wrap n (crit_idx ! r ! c))"
    if "r < nr" "c < nc" for r c
  proof -
    have "in_range n (crit_idx ! r ! c)"
      using rng ci that by (auto simp: list_all_length shape2_def)
    then have i: "wrap n (crit_idx ! r ! c) < length dat" using wrap_less n by simp
    have "comp ! r ! c = ?rolled ! wrap n (crit_idx ! r ! c)
                                 ! wrap nr (mi ! r ! c) ! wrap nc (mj ! r ! c)"
      using that C by (simp add: comp_def)
    also have "\<dots> = ?rolled ! wrap n (crit_idx ! r ! c) ! r ! c"
      using meshgrid_nth[OF that] m by (simp add: wrap_int)
    also have "\<dots> = map (\<lambda>bnd. bnd ! r ! c) (dat ! wrap n (crit_idx ! r ! c))"
      by (rule rollaxis_nth[OF i that])
    finally show ?thesis .
  qed
  have lenpx: "length (comp ! r ! c) = nb" if "r < nr" "c < nc" for r c
  proof -
    have "in_range n (crit_idx ! r ! c)"
      using rng ci that by (auto simp: list_all_length shape2_def)
    then have "wrap n (crit_idx ! r ! c) < n" by (rule wrap_less)
    from shape4_nth[OF dat this] show ?thesis using px[OF that] by (simp add: shape3_def)
  qed
  have shp: "shape3 comp nr nc nb"
    unfolding shape3_def shape2_def list_all_length
  proof (intro conjI allI impI)
    show "length comp = nr" by (simp add: comp_def)
  next
    fix r assume "r < length comp"
    then have r: "r < nr" by (simp add: comp_def)
    then show "length (comp ! r) = nc" using C by (simp add: comp_def)
    fix c assume "c < length (comp ! r)"
    then have "c < nc" using r C by (simp add: comp_def)
    with r show "length (comp ! r ! c) = nb" by (rule lenpx)
  qed
  have val: "comp ! r ! c ! b = dat ! wrap n (crit_idx ! r ! c) ! b ! r ! c"
    if "r < nr" "c < nc" "b < nb" for r c b
  proof -
    have "length (comp ! r ! c) = nb" using that lenpx by simp
    then have "b < length (dat ! wrap n (crit_idx ! r ! c))" using px[OF that(1,2)] that(3) by simp
    then show ?thesis using px[OF that(1,2)] by simp
  qed
  from res shp val show ?thesis by blast
qed

text \<open>
  Claim C1. In the processing of a block, once the window is read into the buffer \<open>dat\<close>
  and the criterion has given the index array \<open>crit_idx\<close> (of the block's shape, with
  entries that index the image axis), the block ends with one write per band, and the value
  written for band \<open>b\<close> at pixel (r, c) is the buffer's value at
  (crit_idx[r,c], b, r, c): every band of a pixel comes from the one image selected for it.
\<close>

theorem block_written_from_winner:
  assumes "read_inputs fs nb nr nc w fnames = (evs, Inr dat)"
    and "crit_slices nb dat ci = Inr crit"
    and "ev src crit = Inr crit_idx"
    and "shape4 dat n nb nr nc"
    and "shape2 crit_idx nr nc"
    and "list_all (list_all (in_range n)) crit_idx"
  shows "\<exists>out. process_block ev fs src ci fnames nb nr nc w
                 = (evs @ map (\<lambda>b. WriteBand (b + 1) w (out ! b)) [0..<nb], Inr ())
           \<and> length out = nb
           \<and> (\<forall>b<nb. \<forall>r<nr. \<forall>c<nc.
                 out ! b ! r ! c = dat ! wrap n (crit_idx ! r ! c) ! b ! r ! c)"
proof -
  from composite_block_spec[OF assms(4-6)] obtain comp where
    comp: "composite_block nr nc dat crit_idx = Inr comp" and
    shp: "shape3 comp nr nc nb" and
    val: "\<forall>r<nr. \<forall>c<nc. \<forall>b<nb. comp ! r ! c ! b = dat ! wrap n (crit_idx ! r ! c) ! b ! r ! c"
    by blast
  define out where "out = map (band_of comp) [0..<nb]"
  have run: "process_block ev fs src ci fnames nb nr nc w
                 = (evs @ map (\<lambda>b. WriteBand (b + 1) w (out ! b)) [0..<nb], Inr ())"
    by (simp add: process_block_def assms(1-3) comp write_block_def out_def)
  have len: "length out = nb" by (simp add: out_def)
  have px: "out ! b ! r ! c = dat ! wrap n (crit_idx ! r ! c) ! b ! r ! c"
    if "b < nb" "r < nr" "c < nc" for b r c
  proof -
    have "length comp = nr" "length (comp ! r) = nc"
      using shp that by (auto simp: shape3_def shape2_def list_all_length)
    then have "out ! b ! r ! c = comp ! r ! c ! b"
      using that by (simp add: out_def band_of_def)
    with val that show ?thesis by simp
  qed
  from run len px show ?thesis by blast
qed

theorem block_written_from_winner_witness:
  "read_inputs (map_of [(''a'', single_pixel_raster [1, 2, 10, 40 :: rat]),
                        (''b'', single_pixel_raster [3, 4, 10, 100])])
      4 1 1 ((0, 1), (0, 1)) [''a'', ''b'']
     = ([OpenRead ''a'', ReadWindow ''a'' ((0, 1), (0, 1)),
         OpenRead ''b'', ReadWindow ''b'' ((0, 1), (0, 1))],
        Inr [[[[1]], [[2]], [[10]], [[40]]], [[[3]], [[4]], [[10]], [[100]]]])
   \<and> process_block snuggs_eval
        (map_of [(''a'', single_pixel_raster [1, 2, 10, 40 :: rat]),
                 (''b'', single_pixel_raster [3, 4, 10, 100])])
        ''(max nir)'' [(''nir'', 3)] [''a'', ''b''] 4 1 1 ((0, 1), (0, 1))
     = ([OpenRead ''a'', ReadWindow ''a'' ((0, 1), (0, 1)),
         OpenRead ''b'', ReadWindow ''b'' ((0, 1), (0, 1)),
         WriteBand 1 ((0, 1), (0, 1)) [[3]], WriteBand 2 ((0, 1), (0, 1)) [[4]],
         WriteBand 3 ((0, 1), (0, 1)) [[10]], WriteBand 4 ((0, 1), (0, 1)) [[100]]], Inr ())"
proof -
  let ?fs = "map_of [(''a'', single_pixel_raster [1, 2, 10, 40 :: rat]),
                     (''b'', single_pixel_raster [3, 4, 10, 100])]"
  let ?w = "((0, 1), (0, 1)) :: window"
  let ?dat = "[[[[1]], [[2]], [[10]], [[40]]], [[[3]], [[4]], [[10]], [[100::rat]]]]"
  let ?evs = "[OpenRead ''a'', ReadWindow ''a'' ?w, OpenRead ''b'', ReadWindow ''b'' ?w] :: rat event list"
  have h1: "read_inputs ?fs 4 1 1 ?w [''a'', ''b''] = (?evs, Inr ?dat)"
    by (simp add: single_pixel_raster_def assign_block_def fits_def nrows3_def ncols3_def
          ncols2_def bcast_dim_def bcast2_def)
  have h2: "crit_slices 4 ?dat [(''nir'', 3)] = Inr [(''nir'', [[[40]], [[100]]])]"
    by (simp add: crit_slices_def in_range_def wrap_def)
  have h3: "snuggs_eval ''(max nir)'' [(''nir'', [[[40]], [[100]]])] = Inr [[1]]"
    by code_simp
  have h4: "shape4 ?dat 2 4 1 1" by (simp add: shape4_def shape3_def shape2_def)
  have h5: "shape2 [[1::int]] 1 1" by (simp add: shape2_def)
  have h6: "list_all (list_all (in_range 2)) [[1::int]]" by (simp add: in_range_def)
  note inst = block_written_from_winner[where ev = snuggs_eval and src = "''(max nir)''",
      OF h1 h2 h3 h4 h5 h6]
  have run: "process_block snuggs_eval ?fs ''(max nir)'' [(''nir'', 3)] [''a'', ''b''] 4 1 1 ?w
     = (?evs @ [WriteBand 1 ?w [[3]], WriteBand 2 ?w [[4]], WriteBand 3 ?w [[10]],
                WriteBand 4 ?w [[100]]], Inr ())"
    by code_simp
  from inst h1 run show ?thesis by simp
qed


subsection \<open>A maximum-NDVI composite of two pixels\<close>

text \<open>
  Claim C2. Two inputs of one pixel in one block, with four bands in the default order
  (blue, green, red, nir), red = 10 and nir = 40 in the first and red = 10 and nir = 100 in
  the second, composited with the predefined algorithm \<open>maxNDVI\<close>: the run succeeds and
  writes the four band values of the second image.
\<close>

theorem maxNDVI_two_pixels:
  "image_composite snuggs_eval
     (map_of [(''image1.gtif'', single_pixel_raster [b1, g1, 10, 40]),
              (''image2.gtif'', single_pixel_raster [b2, g2, 10, 100])])
     ((default_config [''image1.gtif'', ''image2.gtif''])\<lparr>opt_algo := Some ''maxNDVI''\<rparr>)
   = ([LogInfo ''Compositing criteria S-expression: (max (/ (- nir red) (+ nir red)))''],
      [OpenRead ''image1.gtif'', OpenWrite ''composite.gtif'',
       OpenRead ''image1.gtif'', ReadWindow ''image1.gtif'' ((0, 1), (0, 1)),
       OpenRead ''image2.gtif'', ReadWindow ''image2.gtif'' ((0, 1), (0, 1)),
       WriteBand 1 ((0, 1), (0, 1)) [[b2]], WriteBand 2 ((0, 1), (0, 1)) [[g2]],
       WriteBand 3 ((0, 1), (0, 1)) [[10]], WriteBand 4 ((0, 1), (0, 1)) [[100]]],
      Inr ())"
  by code_simp

subsection \<open>The order of the run\<close>

lemma read_inputs_events:
  "read_inputs fs nb nr nc w fnames = (evs, Inr dat) \<Longrightarrow>
   evs = concat (map (\<lambda>f. [OpenRead f, ReadWindow f w]) fnames) \<and> length dat = length fnames"
  by (induction fnames arbitrary: evs dat)
     (auto split: option.splits sum.splits prod.splits)

lemma image_composite_setup:
  assumes "named_bands_valid cfg"
    and "select_criterion (opt_verbose cfg) (opt_algo cfg) (opt_expr cfg) = (lg, Inr src)"
    and "merge_user_bands (default_bands (opt_blue cfg) (opt_green cfg) (opt_red cfg)
            (opt_nir cfg) (opt_swir1 cfg) (opt_swir2 cfg)) (opt_band cfg) = Inr bands"
    and "opt_inputs cfg = first_name # rest"
    and "fs first_name = Some first"
  shows "image_composite ev fs cfg =
     (if length (remdups (block_shapes first)) \<noteq> 1 then (lg, [OpenRead first_name], Inl Abort)
      else case block_shapes first of
             [] \<Rightarrow> (lg, [OpenRead first_name], Inl IndexError)
           | (block_nrow, block_ncol) # _ \<Rightarrow>
               (case process_windows ev fs src (crit_indices bands src) (opt_inputs cfg)
                       (count first) block_nrow block_ncol (block_windows first) of
                  (evs, r) \<Rightarrow> (lg, OpenRead first_name # OpenWrite (opt_output cfg) # evs, r)))"
  using assms by (simp add: image_composite_def)

lemma first_block_eval_error:
  assumes "named_bands_valid cfg"
    and "select_criterion (opt_verbose cfg) (opt_algo cfg) (opt_expr cfg) = (lg, Inr src)"
    and "merge_user_bands (default_bands (opt_blue cfg) (opt_green cfg) (opt_red cfg)
            (opt_nir cfg) (opt_swir1 cfg) (opt_swir2 cfg)) (opt_band cfg) = Inr bands"
    and "opt_inputs cfg = first_name # rest"
    and "fs first_name = Some first"
    and "length (remdups (block_shapes first)) = 1"
    and "block_shapes first = (nr, nc) # bs"
    and "block_windows first = w # ws"
    and "read_inputs fs (count first) nr nc w (opt_inputs cfg) = (evs, Inr dat)"
    and "crit_slices (count first) dat (crit_indices bands src) = Inr crit"
    and "ev src crit = Inl e"
  shows "image_composite ev fs cfg =
     (lg, OpenRead first_name # OpenWrite (opt_output cfg)
          # concat (map (\<lambda>f. [OpenRead f, ReadWindow f w]) (opt_inputs cfg)), Inl e)"
proof -
  have blk: "process_block ev fs src (crit_indices bands src) (opt_inputs cfg) (count first) nr nc w
              = (evs, Inl e)"
    by (simp add: process_block_def assms(9-11))
  have evs: "evs = concat (map (\<lambda>f. [OpenRead f, ReadWindow f w]) (opt_inputs cfg))"
    using read_inputs_events[OF assms(9)] by simp
  have "process_windows ev fs src (crit_indices bands src) (opt_inputs cfg) (count first) nr nc
          (block_windows first) = (evs, Inl e)"
    by (simp add: assms(8) blk)
  then show ?thesis
    unfolding image_composite_setup[where fs = fs and ev = ev, OF assms(1-5)] using assms(6,7) evs by simp
qed



lemma resolved_identifiers: "resolved names t \<Longrightarrow> set (identifiers t) \<subseteq> set names"
  by (induction names t rule: resolved.induct) (auto simp: list_all_iff)


lemma top_selection_Some: "top_selection t = Some (f, arg) \<Longrightarrow> t = Node [Atom f, arg]"
  by (induction t rule: top_selection.induct) auto

lemma snuggs_eval_unknown_name:
  assumes "x \<in> set (free_identifiers src)" and "x \<notin> fst ` set ctx"
  shows "snuggs_eval src ctx = Inl ExpressionError"
proof (cases "parse src")
  case (Inl e)
  then show ?thesis using assms by (simp add: free_identifiers_def)
next
  case (Inr t)
  show ?thesis
  proof (cases "top_selection t")
    case None
    then show ?thesis by (simp add: snuggs_eval_def Inr)
  next
    case (Some p)
    obtain f arg where p: "p = (f, arg)" by (cases p)
    have t: "t = Node [Atom f, arg]" using Some p top_selection_Some by simp
    have "x \<in> set (identifiers arg)" using assms(1) Inr t by (simp add: free_identifiers_def)
    then have "\<not> resolved (map fst ctx) arg" using resolved_identifiers assms(2) by fastforce
    then show ?thesis by (simp add: snuggs_eval_def Inr Some p split: option.splits)
  qed
qed


lemma crit_slices_names:
  "crit_slices nb dat ci = Inr crit \<Longrightarrow> map fst crit = map fst ci"
  by (auto simp: crit_slices_def split: if_splits)

lemma crit_indices_names: "fst ` set (crit_indices bands src) \<subseteq> fst ` set bands"
  by (force simp: crit_indices_def)

lemma read_inputs_same_reads:
  assumes "\<And>p. map_option read (fs' p) = map_option read (fs p)"
  shows "read_inputs fs' nb nr nc w fnames = read_inputs fs nb nr nc w fnames"
proof (induction fnames)
  case Nil
  show ?case by simp
next
  case (Cons f fnames)
  show ?case
  proof (cases "fs f")
    case None
    then have "fs' f = None" using assms[of f] by simp
    with None show ?thesis by simp
  next
    case (Some r)
    then obtain r' where r': "fs' f = Some r'" "read r' = read r" using assms[of f] by auto
    show ?thesis by (simp add: Some r' Cons.IH cong: sum.case_cong)
  qed
qed

lemma process_windows_same_reads:
  assumes "\<And>p. map_option read (fs' p) = map_option read (fs p)"
  shows "process_windows ev fs' src ci fnames nb nr nc ws
         = process_windows ev fs src ci fnames nb nr nc ws"
  by (induction ws)
     (simp_all add: process_block_def read_inputs_same_reads[OF assms] cong: prod.case_cong sum.case_cong)

lemma process_windows_ignores_block_shapes:
  "process_windows ev (\<lambda>p. if p = p0 then fs p else map_option (\<lambda>r. r\<lparr>block_shapes := g p\<rparr>) (fs p))
      src ci fnames nb nr nc ws
   = process_windows ev fs src ci fnames nb nr nc ws"
  by (rule process_windows_same_reads) (simp add: option.map_comp comp_def option.map_ident)

lemma image_composite_ignores_block_shapes:
  "image_composite ev
     (\<lambda>p. if p = hd (opt_inputs cfg) then fs p
          else map_option (\<lambda>r. r\<lparr>block_shapes := g p\<rparr>) (fs p)) cfg
   = image_composite ev fs cfg"
proof -
  define fs' where "fs' = (\<lambda>p. if p = hd (opt_inputs cfg) then fs p
          else map_option (\<lambda>r. r\<lparr>block_shapes := g p\<rparr>) (fs p))"
  have pw: "process_windows ev fs' src ci fnames nb nr nc ws
            = process_windows ev fs src ci fnames nb nr nc ws" for src ci fnames nb nr nc ws
    unfolding fs'_def by (rule process_windows_ignores_block_shapes)
  have "image_composite ev fs' cfg = image_composite ev fs cfg"
  proof (cases "opt_inputs cfg")
    case Nil
    show ?thesis
      unfolding image_composite_def pw Nil list.case ..
  next
    case (Cons f rest)
    then have f: "fs' f = fs f" by (simp add: fs'_def)
    show ?thesis
      unfolding image_composite_def pw Cons list.case f ..
  qed
  then show ?thesis by (simp add: fs'_def)
qed

text \<open>
  Claim C5, as the code has it. Only the first input is examined: when the block shapes
  of its bands are not all the same, the run aborts right after that input was opened,
  before the output is opened and before any window is read; and the block shapes of the
  other inputs have no influence on the run at all.
\<close>

theorem abort_on_first_input_block_shapes:
  assumes "named_bands_valid cfg"
    and "select_criterion (opt_verbose cfg) (opt_algo cfg) (opt_expr cfg) = (lg, Inr src)"
    and "merge_user_bands (default_bands (opt_blue cfg) (opt_green cfg) (opt_red cfg)
            (opt_nir cfg) (opt_swir1 cfg) (opt_swir2 cfg)) (opt_band cfg) = Inr bands"
    and "opt_inputs cfg = first_name # rest"
    and "fs first_name = Some first"
  shows "(length (remdups (block_shapes first)) \<noteq> 1 \<longrightarrow>
            image_composite ev fs cfg = (lg, [OpenRead first_name], Inl Abort))
       \<and> image_composite ev
            (\<lambda>p. if p = first_name then fs p
                 else map_option (\<lambda>r. r\<lparr>block_shapes := g p\<rparr>) (fs p)) cfg
          = image_composite ev fs cfg"
proof
  show "length (remdups (block_shapes first)) \<noteq> 1 \<longrightarrow>
            image_composite ev fs cfg = (lg, [OpenRead first_name], Inl Abort)"
    unfolding image_composite_setup[where fs = fs and ev = ev, OF assms] by simp
next
  have "first_name = hd (opt_inputs cfg)" using assms(4) by simp
  then show "image_composite ev
            (\<lambda>p. if p = first_name then fs p
                 else map_option (\<lambda>r. r\<lparr>block_shapes := g p\<rparr>) (fs p)) cfg
          = image_composite ev fs cfg"
    using image_composite_ignores_block_shapes[of ev cfg fs g] by simp
qed

theorem abort_on_first_input_block_shapes_witness:
  "image_composite snuggs_eval
     (map_of [(''image1.gtif'',
               (single_pixel_raster [1, 2, 10, 40 :: rat])\<lparr>block_shapes := [(1, 1), (1, 1), (1, 1), (2, 2)]\<rparr>),
              (''image2.gtif'', single_pixel_raster [3, 4, 10, 100])])
     ((default_config [''image1.gtif'', ''image2.gtif''])\<lparr>opt_algo := Some ''maxNIR''\<rparr>)
   = ([LogInfo ''Compositing criteria S-expression: (max nir)''], [OpenRead ''image1.gtif''],
      Inl Abort)"
proof -
  let ?r1 = "(single_pixel_raster [1, 2, 10, 40 :: rat])\<lparr>block_shapes := [(1, 1), (1, 1), (1, 1), (2, 2)]\<rparr>"
  let ?fs = "map_of [(''image1.gtif'', ?r1), (''image2.gtif'', single_pixel_raster [3, 4, 10, 100])]"
  let ?cfg = "(default_config [''image1.gtif'', ''image2.gtif''])\<lparr>opt_algo := Some ''maxNIR''\<rparr>"
  have h1: "named_bands_valid ?cfg"
    by (simp add: named_bands_valid_def default_config_def valid_band_def)
  have h2: "select_criterion (opt_verbose ?cfg) (opt_algo ?cfg) (opt_expr ?cfg)
              = ([LogInfo ''Compositing criteria S-expression: (max nir)''], Inr ''(max nir)'')"
    by (simp add: select_criterion_def default_config_def py_not_def ALGO_def)
  have h3: "merge_user_bands (default_bands (opt_blue ?cfg) (opt_green ?cfg) (opt_red ?cfg)
            (opt_nir ?cfg) (opt_swir1 ?cfg) (opt_swir2 ?cfg)) (opt_band ?cfg)
              = Inr (default_bands 1 2 3 4 5 6)"
    by (simp add: default_config_def)
  have h4: "opt_inputs ?cfg = ''image1.gtif'' # [''image2.gtif'']"
    by (simp add: default_config_def)
  have h5: "?fs ''image1.gtif'' = Some ?r1" by simp
  have h6: "length (remdups (block_shapes ?r1)) \<noteq> 1"
    by (simp add: single_pixel_raster_def)
  from abort_on_first_input_block_shapes[where fs = ?fs and ev = snuggs_eval,
      OF h1 h2 h3 h4 h5, THEN conjunct1, THEN mp, OF h6]
  show ?thesis .
qed

text \<open>
  Claim C5 as stated fails: the second input has bands of two block shapes, both unlike
  the first input's, and the run reads both inputs and writes the composite.
\<close>

theorem differing_block_shapes_not_detected:
  "block_shapes ((single_pixel_raster [3, 4, 10, 100 :: rat])\<lparr>block_shapes := [(1, 1), (1, 1), (256, 256), (256, 256)]\<rparr>)
     \<noteq> block_shapes (single_pixel_raster [1, 2, 10, 40 :: rat])
   \<and> length (remdups (block_shapes ((single_pixel_raster [3, 4, 10, 100 :: rat])\<lparr>block_shapes := [(1, 1), (1, 1), (256, 256), (256, 256)]\<rparr>))) = 2
   \<and> image_composite snuggs_eval
     (map_of [(''image1.gtif'', single_pixel_raster [1, 2, 10, 40 :: rat]),
              (''image2.gtif'',
               (single_pixel_raster [3, 4, 10, 100])\<lparr>block_shapes := [(1, 1), (1, 1), (256, 256), (256, 256)]\<rparr>)])
     ((default_config [''image1.gtif'', ''image2.gtif''])\<lparr>opt_algo := Some ''maxNIR''\<rparr>)
   = ([LogInfo ''Compositing criteria S-expression: (max nir)''],
      [OpenRead ''image1.gtif'', OpenWrite ''composite.gtif'',
       OpenRead ''image1.gtif'', ReadWindow ''image1.gtif'' ((0, 1), (0, 1)),
       OpenRead ''image2.gtif'', ReadWindow ''image2.gtif'' ((0, 1), (0, 1)),
       WriteBand 1 ((0, 1), (0, 1)) [[3]], WriteBand 2 ((0, 1), (0, 1)) [[4]],
       WriteBand 3 ((0, 1), (0, 1)) [[10]], WriteBand 4 ((0, 1), (0, 1)) [[100]]],
      Inr ())"
  by code_simp

text \<open>
  Claim C6, as the code has it. An expression that names a band missing from the band map
  is refused by the evaluator, and the evaluator runs inside the block loop: when the first
  input has a block window, the window is read from every input and the band indices of
  the criterion are within the buffer, the run ends with \<open>ExpressionError\<close> after the
  first input and the output were opened and the first window was read from every input,
  and before anything is written.
\<close>

theorem unknown_band_fails_in_first_block:
  assumes "named_bands_valid cfg"
    and "select_criterion (opt_verbose cfg) (opt_algo cfg) (opt_expr cfg) = (lg, Inr src)"
    and "merge_user_bands (default_bands (opt_blue cfg) (opt_green cfg) (opt_red cfg)
            (opt_nir cfg) (opt_swir1 cfg) (opt_swir2 cfg)) (opt_band cfg) = Inr bands"
    and "opt_inputs cfg = first_name # rest"
    and "fs first_name = Some first"
    and "length (remdups (block_shapes first)) = 1"
    and "block_shapes first = (nr, nc) # bs"
    and "block_windows first = w # ws"
    and "read_inputs fs (count first) nr nc w (opt_inputs cfg) = (evs, Inr dat)"
    and "crit_slices (count first) dat (crit_indices bands src) = Inr crit"
    and "x \<in> set (free_identifiers src)"
    and "x \<notin> fst ` set bands"
  shows "image_composite snuggs_eval fs cfg =
     (lg, OpenRead first_name # OpenWrite (opt_output cfg)
          # concat (map (\<lambda>f. [OpenRead f, ReadWindow f w]) (opt_inputs cfg)),
      Inl ExpressionError)"
proof -
  have "fst ` set crit = fst ` set (crit_indices bands src)"
    using crit_slices_names[OF assms(10)] by (metis set_map)
  then have "x \<notin> fst ` set crit" using crit_indices_names assms(12) by blast
  then have "snuggs_eval src crit = Inl ExpressionError"
    using snuggs_eval_unknown_name[OF assms(11)] by simp
  then show ?thesis
    by (rule first_block_eval_error[where fs = fs and ev = snuggs_eval, OF assms(1-10)])
qed

theorem unknown_band_fails_in_first_block_witness:
  "image_composite snuggs_eval
     (map_of [(''image1.gtif'', single_pixel_raster [1, 2, 10, 40 :: rat]),
              (''image2.gtif'', single_pixel_raster [3, 4, 10, 100])])
     ((default_config [''image1.gtif'', ''image2.gtif''])\<lparr>opt_expr := Some ''(max (/ nir thermal))''\<rparr>)
   = ([LogInfo ''Compositing criteria S-expression: (max (/ nir thermal))''],
      [OpenRead ''image1.gtif'', OpenWrite ''composite.gtif'',
       OpenRead ''image1.gtif'', ReadWindow ''image1.gtif'' ((0, 1), (0, 1)),
       OpenRead ''image2.gtif'', ReadWindow ''image2.gtif'' ((0, 1), (0, 1))],
      Inl ExpressionError)"
proof -
  let ?r1 = "single_pixel_raster [1, 2, 10, 40 :: rat]"
  let ?fs = "map_of [(''image1.gtif'', ?r1), (''image2.gtif'', single_pixel_raster [3, 4, 10, 100])]"
  let ?src = "''(max (/ nir thermal))''"
  let ?cfg = "(default_config [''image1.gtif'', ''image2.gtif''])\<lparr>opt_expr := Some ?src\<rparr>"
  let ?w = "((0, 1), (0, 1)) :: window"
  let ?dat = "[[[[1]], [[2]], [[10]], [[40]]], [[[3]], [[4]], [[10]], [[100::rat]]]]"
  have h1: "named_bands_valid ?cfg"
    by (simp add: named_bands_valid_def default_config_def valid_band_def)
  have h2: "select_criterion (opt_verbose ?cfg) (opt_algo ?cfg) (opt_expr ?cfg)
              = ([LogInfo ''Compositing criteria S-expression: (max (/ nir thermal))''], Inr ?src)"
    by (simp add: select_criterion_def default_config_def py_not_def)
  have h3: "merge_user_bands (default_bands (opt_blue ?cfg) (opt_green ?cfg) (opt_red ?cfg)
            (opt_nir ?cfg) (opt_swir1 ?cfg) (opt_swir2 ?cfg)) (opt_band ?cfg)
              = Inr (default_bands 1 2 3 4 5 6)"
    by (simp add: default_config_def)
  have h4: "opt_inputs ?cfg = ''image1.gtif'' # [''image2.gtif'']"
    by (simp add: default_config_def)
  have h5: "?fs ''image1.gtif'' = Some ?r1" by simp
  have h6: "length (remdups (block_shapes ?r1)) = 1"
    by (simp add: single_pixel_raster_def)
  have h7: "block_shapes ?r1 = (1, 1) # [(1, 1), (1, 1), (1, 1)]"
    by (simp add: single_pixel_raster_def numeral_eq_Suc)
  have h8: "block_windows ?r1 = ?w # []" by (simp add: single_pixel_raster_def)
  have h9: "read_inputs ?fs (count ?r1) 1 1 ?w (opt_inputs ?cfg)
     = ([OpenRead ''image1.gtif'', ReadWindow ''image1.gtif'' ?w,
         OpenRead ''image2.gtif'', ReadWindow ''image2.gtif'' ?w], Inr ?dat)"
    by code_simp
  have h10: "crit_slices (count ?r1) ?dat (crit_indices (default_bands 1 2 3 4 5 6) ?src)
     = Inr [(''nir'', [[[40]], [[100]]])]"
    by code_simp
  have h11: "''thermal'' \<in> set (free_identifiers ?src)" by code_simp
  have h12: "''thermal'' \<notin> fst ` set (default_bands 1 2 3 4 5 6)"
    by (simp add: default_bands_def)
  have "image_composite snuggs_eval ?fs ?cfg =
     ([LogInfo ''Compositing criteria S-expression: (max (/ nir thermal))''],
      OpenRead ''image1.gtif'' # OpenWrite (opt_output ?cfg)
          # concat (map (\<lambda>f. [OpenRead f, ReadWindow f ?w]) (opt_inputs ?cfg)),
      Inl ExpressionError)"
    by (rule unknown_band_fails_in_first_block[where fs = ?fs,
          OF h1 h2 h3 h4 h5 h6 h7 h8 h9 h10 h11 h12])
  then show ?thesis by (simp add: default_config_def)
qed

text \<open>
  Claim C6 as stated fails: \<open>(max foo)\<close> names a band that is not in the band map, and the
  run has opened the output and read the window from both inputs when it fails.
\<close>

theorem unknown_band_detected_after_reads:
  "''foo'' \<in> set (free_identifiers ''(max foo)'')
   \<and> ''foo'' \<notin> fst ` set (default_bands 1 2 3 4 5 6)
   \<and> image_composite snuggs_eval
     (map_of [(''image1.gtif'', single_pixel_raster [1, 2, 10, 40 :: rat]),
              (''image2.gtif'', single_pixel_raster [3, 4, 10, 100])])
     ((default_config [''image1.gtif'', ''image2.gtif''])\<lparr>opt_expr := Some ''(max foo)''\<rparr>)
   = ([LogInfo ''Compositing criteria S-expression: (max foo)''],
      [OpenRead ''image1.gtif'', OpenWrite ''composite.gtif'',
       OpenRead ''image1.gtif'', ReadWindow ''image1.gtif'' ((0, 1), (0, 1)),
       OpenRead ''image2.gtif'', ReadWindow ''image2.gtif'' ((0, 1), (0, 1))],
      Inl ExpressionError)"
  by code_simp




subsection \<open>The active band set\<close>

text \<open>
  Claim C8, at the input \<open>--band rededge=7 --expr "(max rededge)"\<close>. The only free
  identifier of the expression is \<open>rededge\<close>, but the active band set also holds \<open>red\<close>,
  whose name is a substring of the expression's text. With two-band inputs, \<open>--nir 1\<close>,
  \<open>--band rededge=2\<close> and the expression \<open>(max (/ nir rededge))\<close> the extra entry makes the
  run fail: the default index of \<open>red\<close> is outside the two bands.
\<close>

theorem substring_band_selected:
  "merge_user_bands (default_bands 1 2 3 4 5 6) [(''rededge'', ''7'')]
     = Inr [(''blue'', 1), (''green'', 2), (''red'', 3), (''nir'', 4), (''swir1'', 5),
            (''swir2'', 6), (''rededge'', 7)]
   \<and> free_identifiers ''(max rededge)'' = [''rededge'']
   \<and> crit_indices [(''blue'', 1), (''green'', 2), (''red'', 3), (''nir'', 4), (''swir1'', 5),
                    (''swir2'', 6), (''rededge'', 7)] ''(max rededge)''
       = [(''red'', 2), (''rededge'', 6)]
   \<and> image_composite snuggs_eval
       (map_of [(''image1.gtif'', single_pixel_raster [40, 10 :: rat]),
                (''image2.gtif'', single_pixel_raster [100, 10])])
       ((default_config [''image1.gtif'', ''image2.gtif''])
          \<lparr>opt_expr := Some ''(max (/ nir rededge))'', opt_nir := 1,
           opt_band := [(''rededge'', ''2'')]\<rparr>)
     = ([LogInfo ''Compositing criteria S-expression: (max (/ nir rededge))''],
        [OpenRead ''image1.gtif'', OpenWrite ''composite.gtif'',
         OpenRead ''image1.gtif'', ReadWindow ''image1.gtif'' ((0, 1), (0, 1)),
         OpenRead ''image2.gtif'', ReadWindow ''image2.gtif'' ((0, 1), (0, 1))],
        Inl IndexError)"
  by code_simp

subsection \<open>The median\<close>










end
